theory Spec2Isabelle
  imports Complex_Main
begin

section \<open>Data model\<close>

text \<open>
  The documents are the Mongoose interfaces of \<^verbatim>\<open>models/*.ts\<close>, restricted to the
  fields the services read or write. An ObjectId is modelled by its hexadecimal string;
  the field \<^verbatim>\<open>_id\<close> is called \<open>oid\<close>. A JavaScript \<^verbatim>\<open>Date\<close> is a local calendar day
  and the milliseconds since local midnight, which is what \<^verbatim>\<open>setDate\<close>, \<^verbatim>\<open>setHours\<close> and
  the format \<^verbatim>\<open>HH:mm\<close> work on.
\<close>

type_synonym ObjectId = string

record Date =
  dayNumber :: int
  msOfDay :: nat

record INote =
  oid :: ObjectId
  userId :: ObjectId
  title :: string
  content :: string
  tags :: "string list"
  linkedEntities :: "ObjectId list"
  createdAt :: Date

record IPerson =
  oid :: ObjectId
  userId :: ObjectId
  name :: string
  linkedNotes :: "ObjectId list"
  meetings :: "ObjectId list"

record IMeeting =
  oid :: ObjectId
  userId :: ObjectId
  title :: string
  description :: "string option"
  date :: Date
  notes' :: "string option"
  actionItems :: "string list"
  linkedNotes :: "ObjectId list"

datatype ReminderType = task | followup | meeting_prep | custom

datatype Priority = low | medium | high

datatype EntityType = Note | Person | Meeting

text \<open>A reminder is created with \<^verbatim>\<open>new Reminder({...})\<close>; \<open>completed\<close> takes the schema default.\<close>

record IReminder =
  userId :: ObjectId
  title :: string
  dueDate :: Date
  type :: ReminderType
  priority :: Priority
  linkedEntity :: ObjectId
  linkedEntityType :: EntityType
  completed :: bool

text \<open>
  What \<^verbatim>\<open>JSON.parse\<close> of the model's reply yields, at the shape the callers read. A
  score is the value of the parsed number; comparing it with 0.6 over the reals agrees
  with the comparison of the doubles, since no double lies strictly between 0.6 and the
  double nearest to it.
\<close>

record EntityBag =
  people :: "string list option"

record Connection =
  index :: int
  score :: real

section \<open>Failures, the outside world and the store\<close>

datatype error =
    BSONError string
  | CastError string
  | TypeError
  | RemoteError string
  | SaveError string
  | ValidationError string

datatype collection = PersonModel | NoteModel | MeetingModel | ReminderModel

datatype request =
    EntitiesRequest string
  | ConnectionsRequest string "string list"
  | ActionItemsRequest string
  | SummaryRequest string

datatype logline = Info string | Error string error

text \<open>
  The environment fixes everything the services do not decide themselves: which strings
  \<^verbatim>\<open>new mongoose.Types.ObjectId\<close> accepts, the parsed reply (or the failure) of each
  chat-completion request, which documents the database refuses to save (keyed by \<open>oid\<close>,
  a new reminder by its title; \<open>resaveRejected\<close> answers for the second save of one
  document within an invocation), and the clock read by \<^verbatim>\<open>new Date()\<close>.
\<close>

record env =
  isValidObjectId :: "string \<Rightarrow> bool"
  chatEntities :: "string \<Rightarrow> error + EntityBag"
  chatConnections :: "string \<Rightarrow> string list \<Rightarrow> error + Connection list"
  chatActionItems :: "string \<Rightarrow> error + string list"
  chatSummary :: "string \<Rightarrow> error + string"
  saveRejected :: "collection \<Rightarrow> string \<Rightarrow> bool"
  resaveRejected :: "collection \<Rightarrow> string \<Rightarrow> bool"
  clock :: Date

text \<open>
  The store holds the four collections in insertion order, the lines written through
  \<^verbatim>\<open>logger\<close>, and the requests sent to the chat-completion endpoint.
\<close>

record store =
  personDocs :: "IPerson list"
  noteDocs :: "INote list"
  meetingDocs :: "IMeeting list"
  reminderDocs :: "IReminder list"
  logged :: "logline list"
  requests :: "request list"

text \<open>
  An \<^verbatim>\<open>async\<close> function is a store transformer that either returns a value or throws; the
  store it leaves behind is kept in both cases, as writes that were awaited before a throw
  stay written.
\<close>

type_synonym 'a io = "store \<Rightarrow> (error + 'a) \<times> store"

definition io_return :: "'a \<Rightarrow> 'a io" where
  "io_return a = (\<lambda>s. (Inr a, s))"

definition io_throw :: "error \<Rightarrow> 'a io" where
  "io_throw e = (\<lambda>s. (Inl e, s))"

definition io_bind :: "'a io \<Rightarrow> ('a \<Rightarrow> 'b io) \<Rightarrow> 'b io" where
  "io_bind m f = (\<lambda>s. case m s of (Inl e, s') \<Rightarrow> (Inl e, s') | (Inr a, s') \<Rightarrow> f a s')"

definition io_lift :: "error + 'a \<Rightarrow> 'a io" where
  "io_lift r = (\<lambda>s. (r, s))"

definition try_catch :: "'a io \<Rightarrow> (error \<Rightarrow> 'a io) \<Rightarrow> 'a io" where
  "try_catch m h = (\<lambda>s. case m s of (Inl e, s') \<Rightarrow> h e s' | (Inr a, s') \<Rightarrow> (Inr a, s'))"

definition logger_info :: "string \<Rightarrow> unit io" where
  "logger_info msg = (\<lambda>s. (Inr (), s\<lparr>logged := logged s @ [Info msg]\<rparr>))"

definition logger_error :: "string \<Rightarrow> error \<Rightarrow> unit io" where
  "logger_error msg e = (\<lambda>s. (Inr (), s\<lparr>logged := logged s @ [Error msg e]\<rparr>))"

text \<open>\<^verbatim>\<open>axios.post\<close> followed by \<^verbatim>\<open>JSON.parse\<close>: the request is recorded, the reply is the environment's.\<close>

definition post :: "request \<Rightarrow> error + 'a \<Rightarrow> 'a io" where
  "post rq reply = (\<lambda>s. (reply, s\<lparr>requests := requests s @ [rq]\<rparr>))"

section \<open>Mongoose operations\<close>

definition newObjectId :: "env \<Rightarrow> string \<Rightarrow> ObjectId io" where
  "newObjectId env x = (if isValidObjectId env x then io_return x else io_throw (BSONError x))"

definition castObjectId :: "env \<Rightarrow> string \<Rightarrow> ObjectId io" where
  "castObjectId env x = (if isValidObjectId env x then io_return x else io_throw (CastError x))"

text \<open>\<^verbatim>\<open>doc.save()\<close> of a fetched document updates the one stored document with its \<open>_id\<close>.\<close>

fun replaceOne :: "('d \<Rightarrow> ObjectId) \<Rightarrow> 'd \<Rightarrow> 'd list \<Rightarrow> 'd list" where
  "replaceOne key d [] = []"
| "replaceOne key d (x # xs) = (if key x = key d then d # xs else x # replaceOne key d xs)"

definition save_person :: "env \<Rightarrow> IPerson \<Rightarrow> unit io" where
  "save_person env p = (\<lambda>s.
     if saveRejected env PersonModel (IPerson.oid p) then (Inl (SaveError (IPerson.oid p)), s)
     else (Inr (), s\<lparr>personDocs := replaceOne IPerson.oid p (personDocs s)\<rparr>))"

definition save_note :: "env \<Rightarrow> INote \<Rightarrow> unit io" where
  "save_note env n = (\<lambda>s.
     if saveRejected env NoteModel (INote.oid n) then (Inl (SaveError (INote.oid n)), s)
     else (Inr (), s\<lparr>noteDocs := replaceOne INote.oid n (noteDocs s)\<rparr>))"

definition save_meeting :: "env \<Rightarrow> IMeeting \<Rightarrow> unit io" where
  "save_meeting env m = (\<lambda>s.
     if saveRejected env MeetingModel (IMeeting.oid m) then (Inl (SaveError (IMeeting.oid m)), s)
     else (Inr (), s\<lparr>meetingDocs := replaceOne IMeeting.oid m (meetingDocs s)\<rparr>))"

text \<open>
  In \<open>linkMeetingToData\<close> the meeting fetched once is saved a second time after the
  connections are pushed.
\<close>

definition save_meeting_again :: "env \<Rightarrow> IMeeting \<Rightarrow> unit io" where
  "save_meeting_again env m = (\<lambda>s.
     if resaveRejected env MeetingModel (IMeeting.oid m) then (Inl (SaveError (IMeeting.oid m)), s)
     else (Inr (), s\<lparr>meetingDocs := replaceOne IMeeting.oid m (meetingDocs s)\<rparr>))"

text \<open>
  Saving a new reminder validates it first. The schema declares
  \<^verbatim>\<open>title: { type: String, required: true }\<close>, and the required check of a string fails
  on the empty string; the other required paths (\<open>userId\<close>, \<open>dueDate\<close>) are always set by
  the caller, and \<open>type\<close> and \<open>priority\<close> are values of their enumerations.
\<close>

definition save_reminder :: "env \<Rightarrow> IReminder \<Rightarrow> unit io" where
  "save_reminder env r = (\<lambda>s.
     if IReminder.title r = [] then (Inl (ValidationError ''title''), s)
     else if saveRejected env ReminderModel (IReminder.title r) then (Inl (SaveError (IReminder.title r)), s)
     else (Inr (), s\<lparr>reminderDocs := reminderDocs s @ [r]\<rparr>))"

text \<open>\<^verbatim>\<open>Person.find({ userId, name: { $in: names } })\<close>: string equality on the name.\<close>

definition Person_find_byNames :: "ObjectId \<Rightarrow> string list \<Rightarrow> IPerson list io" where
  "Person_find_byNames uid names = (\<lambda>s.
     (Inr (filter (\<lambda>p. IPerson.userId p = uid \<and> name p \<in> set names) (personDocs s)), s))"

text \<open>\<^verbatim>\<open>Note.find({ userId, _id: { $ne: noteId } }).limit(k)\<close>; the query casts \<open>noteId\<close>.\<close>

definition Note_find_others :: "env \<Rightarrow> ObjectId \<Rightarrow> string \<Rightarrow> nat \<Rightarrow> INote list io" where
  "Note_find_others env uid noteId k =
     io_bind (castObjectId env noteId) (\<lambda>nid s.
       (Inr (take k (filter (\<lambda>n. INote.userId n = uid \<and> INote.oid n \<noteq> nid) (noteDocs s))), s))"

definition Note_find :: "ObjectId \<Rightarrow> nat \<Rightarrow> INote list io" where
  "Note_find uid k = (\<lambda>s. (Inr (take k (filter (\<lambda>n. INote.userId n = uid) (noteDocs s))), s))"

definition Meeting_find :: "ObjectId \<Rightarrow> nat \<Rightarrow> IMeeting list io" where
  "Meeting_find uid k = (\<lambda>s. (Inr (take k (filter (\<lambda>m. IMeeting.userId m = uid) (meetingDocs s))), s))"

definition Note_findById :: "env \<Rightarrow> string \<Rightarrow> INote option io" where
  "Note_findById env x =
     io_bind (castObjectId env x) (\<lambda>i s. (Inr (find (\<lambda>n. INote.oid n = i) (noteDocs s)), s))"

definition Person_findById :: "env \<Rightarrow> string \<Rightarrow> IPerson option io" where
  "Person_findById env x =
     io_bind (castObjectId env x) (\<lambda>i s. (Inr (find (\<lambda>p. IPerson.oid p = i) (personDocs s)), s))"

definition Meeting_findById :: "env \<Rightarrow> string \<Rightarrow> IMeeting option io" where
  "Meeting_findById env x =
     io_bind (castObjectId env x) (\<lambda>i s. (Inr (find (\<lambda>m. IMeeting.oid m = i) (meetingDocs s)), s))"

section \<open>AIService\<close>

text \<open>Each method posts one request, parses the reply and, on any failure, logs and rethrows.\<close>

definition extractEntities :: "env \<Rightarrow> string \<Rightarrow> EntityBag io" where
  "extractEntities env text =
     try_catch (post (EntitiesRequest text) (chatEntities env text))
       (\<lambda>e. io_bind (logger_error ''Error extracting entities:'' e) (\<lambda>_. io_throw e))"

definition findConnections :: "env \<Rightarrow> string \<Rightarrow> string list \<Rightarrow> Connection list io" where
  "findConnections env sourceText targetTexts =
     try_catch (post (ConnectionsRequest sourceText targetTexts) (chatConnections env sourceText targetTexts))
       (\<lambda>e. io_bind (logger_error ''Error finding connections:'' e) (\<lambda>_. io_throw e))"

definition generateActionItems :: "env \<Rightarrow> string \<Rightarrow> string list io" where
  "generateActionItems env meetingNotes =
     try_catch (post (ActionItemsRequest meetingNotes) (chatActionItems env meetingNotes))
       (\<lambda>e. io_bind (logger_error ''Error generating action items:'' e) (\<lambda>_. io_throw e))"

definition AIService_generateDailySummary :: "env \<Rightarrow> string \<Rightarrow> string io" where
  "AIService_generateDailySummary env compiled =
     try_catch (post (SummaryRequest compiled) (chatSummary env compiled))
       (\<lambda>e. io_bind (logger_error ''Error generating summary:'' e) (\<lambda>_. io_throw e))"

section \<open>DataLinkingService\<close>

text \<open>\<^verbatim>\<open>xs[i]\<close> is \<^verbatim>\<open>undefined\<close> outside the array, and reading \<^verbatim>\<open>._id\<close> of it throws.\<close>

definition at_index :: "'a list \<Rightarrow> int \<Rightarrow> error + 'a" where
  "at_index xs i = (if 0 \<le> i \<and> i < int (length xs) then Inr (xs ! nat i) else Inl TypeError)"

text \<open>The loop over the matched people of \<open>linkNoteToEntities\<close>: push, then save, one by one.\<close>

fun linkPeople :: "env \<Rightarrow> string \<Rightarrow> IPerson list \<Rightarrow> unit io" where
  "linkPeople env noteId [] = io_return ()"
| "linkPeople env noteId (person # rest) =
     io_bind (newObjectId env noteId) (\<lambda>nid.
     io_bind (save_person env (person\<lparr>IPerson.linkedNotes := IPerson.linkedNotes person @ [nid]\<rparr>)) (\<lambda>_.
     linkPeople env noteId rest))"

text \<open>The loop over the connections: the ids pushed onto the in-memory document, in order.\<close>

fun pushConnections :: "INote list \<Rightarrow> Connection list \<Rightarrow> ObjectId list \<Rightarrow> error + ObjectId list" where
  "pushConnections allNotes [] linked = Inr linked"
| "pushConnections allNotes (connection # rest) linked =
     (if score connection > 0.6 then
        (case at_index allNotes (index connection) of
           Inl e \<Rightarrow> Inl e
         | Inr relatedNote \<Rightarrow> pushConnections allNotes rest (linked @ [INote.oid relatedNote]))
      else pushConnections allNotes rest linked)"

definition linkNoteToEntities_try :: "env \<Rightarrow> string \<Rightarrow> string \<Rightarrow> string \<Rightarrow> unit io" where
  "linkNoteToEntities_try env user_id noteId noteContent =
     io_bind (extractEntities env noteContent) (\<lambda>entities.
     io_bind
       (case people entities of
          None \<Rightarrow> io_return ()
        | Some names \<Rightarrow>
            if length names > 0 then
              io_bind (newObjectId env user_id) (\<lambda>uid.
              io_bind (Person_find_byNames uid names) (\<lambda>relatedPeople.
              linkPeople env noteId relatedPeople))
            else io_return ()) (\<lambda>_.
     io_bind (newObjectId env user_id) (\<lambda>uid.
     io_bind (Note_find_others env uid noteId 50) (\<lambda>allNotes.
     io_bind
       (if length allNotes > 0 then
          io_bind (findConnections env noteContent (map content allNotes)) (\<lambda>connections.
          io_bind (Note_findById env noteId) (\<lambda>currentNote.
            case currentNote of
              None \<Rightarrow> io_return ()
            | Some cn \<Rightarrow>
                io_bind (io_lift (pushConnections allNotes connections (linkedEntities cn))) (\<lambda>linked.
                save_note env (cn\<lparr>linkedEntities := linked\<rparr>))))
        else io_return ()) (\<lambda>_.
     logger_info (''Linked note '' @ noteId @ '' to related entities''))))))"

definition linkNoteToEntities :: "env \<Rightarrow> string \<Rightarrow> string \<Rightarrow> string \<Rightarrow> unit io" where
  "linkNoteToEntities env user_id noteId noteContent =
     try_catch (linkNoteToEntities_try env user_id noteId noteContent)
       (\<lambda>e. logger_error ''Error linking note to entities:'' e)"

text \<open>
  \<^verbatim>\<open>toLowerCase\<close> on the ASCII letters (other characters are left as they are) and
  \<^verbatim>\<open>String.prototype.includes\<close>.
\<close>

definition toLowerChar :: "char \<Rightarrow> char" where
  "toLowerChar c =
     (case map_of (zip ''ABCDEFGHIJKLMNOPQRSTUVWXYZ'' ''abcdefghijklmnopqrstuvwxyz'') c of
        None \<Rightarrow> c
      | Some l \<Rightarrow> l)"

definition toLowerCase :: "string \<Rightarrow> string" where
  "toLowerCase str = map toLowerChar str"

fun startsWith :: "string \<Rightarrow> string \<Rightarrow> bool" where
  "startsWith str [] = True"
| "startsWith [] (c # cs) = False"
| "startsWith (h # hs) (c # cs) = (h = c \<and> startsWith hs cs)"

fun includes' :: "string \<Rightarrow> string \<Rightarrow> bool" where
  "includes' [] sub = (sub = [])"
| "includes' (h # hs) sub = (startsWith (h # hs) sub \<or> includes' hs sub)"

text \<open>The two loops of \<open>linkPersonToRelevantData\<close> over the fetched notes and meetings.\<close>

fun pushMentioningNotes :: "string \<Rightarrow> INote list \<Rightarrow> ObjectId list \<Rightarrow> ObjectId list" where
  "pushMentioningNotes personName [] linked = linked"
| "pushMentioningNotes personName (n # rest) linked =
     (if includes' (toLowerCase (content n)) (toLowerCase personName) then
        (if INote.oid n \<notin> set linked
         then pushMentioningNotes personName rest (linked @ [INote.oid n])
         else pushMentioningNotes personName rest linked)
      else pushMentioningNotes personName rest linked)"

fun pushMentioningMeetings :: "string \<Rightarrow> IMeeting list \<Rightarrow> ObjectId list \<Rightarrow> ObjectId list" where
  "pushMentioningMeetings personName [] linked = linked"
| "pushMentioningMeetings personName (m # rest) linked =
     (if includes' (toLowerCase (IMeeting.title m)) (toLowerCase personName) then
        (if IMeeting.oid m \<notin> set linked
         then pushMentioningMeetings personName rest (linked @ [IMeeting.oid m])
         else pushMentioningMeetings personName rest linked)
      else pushMentioningMeetings personName rest linked)"

definition linkPersonToRelevantData_try :: "env \<Rightarrow> string \<Rightarrow> string \<Rightarrow> string \<Rightarrow> unit io" where
  "linkPersonToRelevantData_try env user_id personId personName =
     io_bind (newObjectId env user_id) (\<lambda>uid.
     io_bind (Note_find uid 100) (\<lambda>allNotes.
     io_bind (newObjectId env user_id) (\<lambda>uid'.
     io_bind (Meeting_find uid' 100) (\<lambda>allMeetings.
     io_bind (Person_findById env personId) (\<lambda>found.
       case found of
         None \<Rightarrow> io_return ()
       | Some person \<Rightarrow>
           io_bind
             (save_person env
               (person\<lparr>IPerson.linkedNotes :=
                          pushMentioningNotes personName allNotes (IPerson.linkedNotes person),
                        meetings := pushMentioningMeetings personName allMeetings (meetings person)\<rparr>))
             (\<lambda>_. logger_info (''Linked person '' @ personId @ '' to relevant data'')))))))"

definition linkPersonToRelevantData :: "env \<Rightarrow> string \<Rightarrow> string \<Rightarrow> string \<Rightarrow> unit io" where
  "linkPersonToRelevantData env user_id personId personName =
     try_catch (linkPersonToRelevantData_try env user_id personId personName)
       (\<lambda>e. logger_error ''Error linking person to relevant data:'' e)"

definition linkMeetingToData_try :: "env \<Rightarrow> string \<Rightarrow> string \<Rightarrow> string \<Rightarrow> unit io" where
  "linkMeetingToData_try env user_id meetingId meetingNotes =
     io_bind (generateActionItems env meetingNotes) (\<lambda>items.
     io_bind (Meeting_findById env meetingId) (\<lambda>found.
     io_bind
       (case found of
          None \<Rightarrow> io_return None
        | Some m \<Rightarrow>
            io_bind (save_meeting env (m\<lparr>actionItems := items\<rparr>)) (\<lambda>_.
            io_return (Some (m\<lparr>actionItems := items\<rparr>)))) (\<lambda>meeting.
     io_bind (newObjectId env user_id) (\<lambda>uid.
     io_bind (Note_find uid 50) (\<lambda>allNotes.
     io_bind
       (if length allNotes > 0 then
          io_bind (findConnections env meetingNotes (map content allNotes)) (\<lambda>connections.
            case meeting of
              None \<Rightarrow> io_return ()
            | Some m \<Rightarrow>
                io_bind (io_lift (pushConnections allNotes connections (IMeeting.linkedNotes m))) (\<lambda>linked.
                save_meeting_again env (m\<lparr>IMeeting.linkedNotes := linked\<rparr>)))
        else io_return ()) (\<lambda>_.
     logger_info (''Linked meeting '' @ meetingId @ '' to related data'')))))))"

definition linkMeetingToData :: "env \<Rightarrow> string \<Rightarrow> string \<Rightarrow> string \<Rightarrow> unit io" where
  "linkMeetingToData env user_id meetingId meetingNotes =
     try_catch (linkMeetingToData_try env user_id meetingId meetingNotes)
       (\<lambda>e. logger_error ''Error linking meeting to data:'' e)"






section \<open>SummaryService\<close>

definition setHours :: "nat \<Rightarrow> nat \<Rightarrow> nat \<Rightarrow> nat \<Rightarrow> Date \<Rightarrow> Date" where
  "setHours h m sec ms d = d\<lparr>msOfDay := ((h * 60 + m) * 60 + sec) * 1000 + ms\<rparr>"

definition date_le :: "Date \<Rightarrow> Date \<Rightarrow> bool" where
  "date_le a b = (dayNumber a < dayNumber b \<or> (dayNumber a = dayNumber b \<and> msOfDay a \<le> msOfDay b))"

definition newline :: string where
  "newline = [CHR 0x0A]"

fun join :: "string \<Rightarrow> string list \<Rightarrow> string" where
  "join sep [] = []"
| "join sep [x] = x"
| "join sep (x # y # ys) = x @ sep @ join sep (y # ys)"

definition twoDigits :: "nat \<Rightarrow> string" where
  "twoDigits k = [''0123456789'' ! ((k div 10) mod 10), ''0123456789'' ! (k mod 10)]"

text \<open>\<^verbatim>\<open>format(d, 'HH:mm')\<close> of date-fns.\<close>

definition formatHHmm :: "Date \<Rightarrow> string" where
  "formatHHmm d = twoDigits (msOfDay d div 3600000) @ '':'' @ twoDigits ((msOfDay d div 60000) mod 60)"

definition noteLine :: "INote \<Rightarrow> string" where
  "noteLine n = ''- '' @ INote.title n @ '': '' @ content n"

text \<open>\<^verbatim>\<open>m.notes || m.description\<close> inside a template literal.\<close>

definition notesOrDescription :: "IMeeting \<Rightarrow> string" where
  "notesOrDescription m =
     (let d = (case description m of None \<Rightarrow> ''undefined'' | Some t \<Rightarrow> t)
      in case notes' m of None \<Rightarrow> d | Some t \<Rightarrow> if t = [] then d else t)"

definition meetingLine :: "IMeeting \<Rightarrow> string" where
  "meetingLine m =
     ''- '' @ IMeeting.title m @ '' at '' @ formatHHmm (date m) @ '': '' @ notesOrDescription m"

definition compileContent :: "INote list \<Rightarrow> IMeeting list \<Rightarrow> string" where
  "compileContent dayNotes dayMeetings =
     (if length dayNotes > 0
      then ''## Notes from today'' @ newline @ join newline (map noteLine dayNotes) @ newline @ newline
      else [])
     @ (if length dayMeetings > 0
        then ''## Meetings'' @ newline @ join newline (map meetingLine dayMeetings) @ newline @ newline
        else [])"

definition Note_find_created :: "ObjectId \<Rightarrow> Date \<Rightarrow> Date \<Rightarrow> INote list io" where
  "Note_find_created uid dayStart dayEnd = (\<lambda>s.
     (Inr (filter (\<lambda>n. INote.userId n = uid \<and> date_le dayStart (createdAt n) \<and> date_le (createdAt n) dayEnd)
            (noteDocs s)), s))"

definition Meeting_find_dated :: "ObjectId \<Rightarrow> Date \<Rightarrow> Date \<Rightarrow> IMeeting list io" where
  "Meeting_find_dated uid dayStart dayEnd = (\<lambda>s.
     (Inr (filter (\<lambda>m. IMeeting.userId m = uid \<and> date_le dayStart (date m) \<and> date_le (date m) dayEnd)
            (meetingDocs s)), s))"

definition generateDailySummary :: "env \<Rightarrow> string \<Rightarrow> Date option \<Rightarrow> string io" where
  "generateDailySummary env user_id dateArg =
     try_catch
       (let summaryDate = (case dateArg of None \<Rightarrow> clock env | Some d \<Rightarrow> d);
            dayStart = setHours 0 0 0 0 summaryDate;
            dayEnd = setHours 23 59 59 999 summaryDate
        in io_bind (newObjectId env user_id) (\<lambda>userIdObj.
           io_bind (Note_find_created userIdObj dayStart dayEnd) (\<lambda>dayNotes.
           io_bind (Meeting_find_dated userIdObj dayStart dayEnd) (\<lambda>dayMeetings.
             if compileContent dayNotes dayMeetings = [] then io_return ''No activity recorded for today.''
             else
               io_bind (AIService_generateDailySummary env (compileContent dayNotes dayMeetings)) (\<lambda>summary.
               io_bind (logger_info (''Generated daily summary for user '' @ user_id)) (\<lambda>_.
               io_return summary))))))
       (\<lambda>e. io_bind (logger_error ''Error generating daily summary:'' e) (\<lambda>_. io_throw e))"

section \<open>A small store and environment\<close>

text \<open>
  One owner \<open>u1\<close> with a person John, three notes and a meeting. The environment accepts
  every non-empty identifier, saves everything, and answers every request: the entities
  of any text are the person John, the connections are candidate 0 at score 0.6 and
  candidate 1 at score 0.9, and the action items are the two of the meeting.
\<close>

definition morning :: Date where
  "morning = \<lparr>dayNumber = 100, msOfDay = 34200000\<rparr>"

definition john :: IPerson where
  "john = \<lparr>IPerson.oid = ''p1'', userId = ''u1'', name = ''John'', linkedNotes = [], meetings = []\<rparr>"

definition note1 :: INote where
  "note1 = \<lparr>INote.oid = ''n1'', userId = ''u1'', title = ''Budget'',
             content = ''Met with John about budget'', tags = [], linkedEntities = [],
             createdAt = morning\<rparr>"

definition note2 :: INote where
  "note2 = \<lparr>INote.oid = ''n2'', userId = ''u1'', title = ''Groceries'',
             content = ''Buy milk'', tags = [], linkedEntities = [], createdAt = morning\<rparr>"

definition note3 :: INote where
  "note3 = \<lparr>INote.oid = ''n3'', userId = ''u1'', title = ''Plan'',
             content = ''Budget plan for next year'', tags = [], linkedEntities = [],
             createdAt = morning\<rparr>"

definition meeting1 :: IMeeting where
  "meeting1 = \<lparr>IMeeting.oid = ''m1'', userId = ''u1'', title = ''Sync with john'',
                description = None, date = morning, notes' = Some ''Send the proposal by Friday. Review budget.'',
                actionItems = [''Send the proposal by Friday'', ''Review budget''], linkedNotes = []\<rparr>"

definition store0 :: store where
  "store0 = \<lparr>personDocs = [john], noteDocs = [note1, note2, note3], meetingDocs = [meeting1],
              reminderDocs = [], logged = [], requests = []\<rparr>"

definition env0 :: env where
  "env0 = \<lparr>isValidObjectId = (\<lambda>x. x \<noteq> []),
            chatEntities = (\<lambda>t. Inr \<lparr>people = Some [''John'']\<rparr>),
            chatConnections = (\<lambda>src tgts. Inr [\<lparr>index = 0, score = 0.6\<rparr>, \<lparr>index = 1, score = 0.9\<rparr>]),
            chatActionItems = (\<lambda>t. Inr [''Send the proposal by Friday'', ''Review budget'']),
            chatSummary = (\<lambda>t. Inr ''A day about the budget.''),
            saveRejected = (\<lambda>c k. False),
            resaveRejected = (\<lambda>c k. False),
            clock = morning\<rparr>"

text \<open>
  The order the specification asks of a ranking (it is not part of the code): descending
  score, equal scores by ascending candidate index.
\<close>

definition rankedOrder :: "Connection list \<Rightarrow> bool" where
  "rankedOrder cs =
     sorted_wrt (\<lambda>a b. score b < score a \<or> (score a = score b \<and> index a < index b)) cs"




definition env_lowercase :: env where
  "env_lowercase = env0\<lparr>chatEntities := (\<lambda>t. Inr \<lparr>people = Some [''john'']\<rparr>)\<rparr>"

definition mary :: IPerson where
  "mary = \<lparr>IPerson.oid = ''p2'', userId = ''u1'', name = ''Mary'', linkedNotes = [], meetings = []\<rparr>"

definition ann :: IPerson where
  "ann = \<lparr>IPerson.oid = ''p3'', userId = ''u1'', name = ''Ann'', linkedNotes = [], meetings = []\<rparr>"

definition store_three :: store where
  "store_three = store0\<lparr>personDocs := [john, mary, ann]\<rparr>"

definition env_mary_refused :: env where
  "env_mary_refused =
     env0\<lparr>chatEntities := (\<lambda>t. Inr \<lparr>people = Some [''John'', ''Mary'', ''Ann'']\<rparr>),
          saveRejected := (\<lambda>c k. c = PersonModel \<and> k = ''p2'')\<rparr>"






definition env_quiet :: env where
  "env_quiet = env0\<lparr>chatEntities := (\<lambda>t. Inr \<lparr>people = Some []\<rparr>),
                    chatConnections := (\<lambda>src tgts. Inr [])\<rparr>"


text \<open>
  The shape the two loops of \<open>linkPersonToRelevantData\<close> share, used to reason about both
  at once: each id in turn is pushed unless the list already holds it.
\<close>

fun pushAbsent :: "ObjectId list \<Rightarrow> ObjectId list \<Rightarrow> ObjectId list" where
  "pushAbsent [] linked = linked"
| "pushAbsent (i # ids) linked =
     (if i \<notin> set linked then pushAbsent ids (linked @ [i]) else pushAbsent ids linked)"

section \<open>Basic facts about the store transformers\<close>

lemmas io_defs = io_return_def io_throw_def io_bind_def io_lift_def try_catch_def logger_info_def
  logger_error_def post_def newObjectId_def castObjectId_def save_person_def save_note_def
  save_meeting_def save_meeting_again_def save_reminder_def Person_find_byNames_def
  Note_find_others_def Note_find_def Meeting_find_def Note_findById_def Person_findById_def
  Meeting_findById_def extractEntities_def findConnections_def generateActionItems_def
  AIService_generateDailySummary_def at_index_def

lemmas fixture_defs = store0_def env0_def john_def note1_def note2_def note3_def meeting1_def
  morning_def

lemma try_catch_logger_returns:
  "fst (try_catch m (\<lambda>e. logger_error msg e) s) = Inr ()"
  by (cases "m s") (auto simp: try_catch_def logger_error_def split: sum.splits)

lemma io_bind_InrE:
  assumes "io_bind m f s = (Inr b, s')"
  obtains a s1 where "m s = (Inr a, s1)" and "f a s1 = (Inr b, s')"
  using assms by (auto simp: io_bind_def split: prod.splits sum.splits)

lemma find_key: "find (\<lambda>x. key x = i) xs = Some d \<Longrightarrow> key d = i"
  by (induction xs) (auto split: if_splits)

lemma replaceOne_same:
  "find (\<lambda>x. key x = i) xs = Some d \<Longrightarrow> replaceOne key d xs = xs"
proof (induction xs)
  case Nil
  then show ?case by simp
next
  case (Cons x xs)
  then show ?case
    using find_key[of key i "x # xs" d] by (auto split: if_splits)
qed

lemma find_replaceOne:
  "find (\<lambda>x. key x = i) xs = Some d \<Longrightarrow> key d' = i \<Longrightarrow>
   find (\<lambda>x. key x = i) (replaceOne key d' xs) = Some d'"
  by (induction xs) (auto split: if_splits)

section \<open>The entry points and invalid input\<close>

text \<open>
  C3 (as the code has it). The three linking entry points return normally on every input:
  the whole body of each is one \<^verbatim>\<open>try\<close> block whose handler only logs, so nothing is ever
  raised to the caller, an invalid owner or record id included.
\<close>

theorem entry_points_never_raise:
  "fst (linkNoteToEntities env user_id noteId noteContent s) = Inr ()
   \<and> fst (linkPersonToRelevantData env user_id personId personName s) = Inr ()
   \<and> fst (linkMeetingToData env user_id meetingId meetingNotes s) = Inr ()"
  unfolding linkNoteToEntities_def linkPersonToRelevantData_def linkMeetingToData_def
  by (simp add: try_catch_logger_returns)

text \<open>
  C3 as stated fails: with the owner id missing (the empty string, which the ObjectId
  constructor rejects) \<open>linkNoteToEntities\<close> returns normally and only logs the error, and
  so does \<open>linkPersonToRelevantData\<close> with the person id missing.
\<close>

theorem missing_ids_are_swallowed:
  "\<not> isValidObjectId env0 []
   \<and> linkNoteToEntities env0 [] ''n1'' (content note1) store0
       = (Inr (), store0\<lparr>logged := [Error ''Error linking note to entities:'' (BSONError [])],
                         requests := [EntitiesRequest (content note1)]\<rparr>)
   \<and> linkPersonToRelevantData env0 ''u1'' [] ''John'' store0
       = (Inr (), store0\<lparr>logged := [Error ''Error linking person to relevant data:'' (CastError [])]\<rparr>)"
  by (simp add: linkNoteToEntities_def linkNoteToEntities_try_def linkPersonToRelevantData_def
      linkPersonToRelevantData_try_def io_defs fixture_defs)

section \<open>The similarity step\<close>

lemma pushConnections_Inr:
  "pushConnections allNotes cs linked = Inr linked' \<Longrightarrow>
   linked' = linked @ map (\<lambda>k. INote.oid (allNotes ! nat (index k))) (filter (\<lambda>k. 0.6 < score k) cs)"
proof (induction cs arbitrary: linked)
  case Nil
  then show ?case by simp
next
  case (Cons k cs)
  show ?case
  proof (cases "0.6 < score k")
    case True
    with Cons.prems obtain r where r: "at_index allNotes (index k) = Inr r"
      and rest: "pushConnections allNotes cs (linked @ [INote.oid r]) = Inr linked'"
      by (auto split: sum.splits)
    from r have "r = allNotes ! nat (index k)"
      by (auto simp: at_index_def split: if_splits)
    with Cons.IH[OF rest] True show ?thesis by simp
  next
    case False
    with Cons.prems have "pushConnections allNotes cs linked = Inr linked'" by simp
    from Cons.IH[OF this] False show ?thesis by simp
  qed
qed

lemma extractEntities_frame:
  "extractEntities env t s = (r, s') \<Longrightarrow>
   personDocs s' = personDocs s \<and> noteDocs s' = noteDocs s \<and> meetingDocs s' = meetingDocs s
   \<and> reminderDocs s' = reminderDocs s"
  by (auto simp: extractEntities_def try_catch_def post_def io_bind_def logger_error_def io_throw_def
      split: sum.splits)

lemma save_person_frame:
  "save_person env p s = (r, s') \<Longrightarrow>
   noteDocs s' = noteDocs s \<and> meetingDocs s' = meetingDocs s \<and> reminderDocs s' = reminderDocs s
   \<and> requests s' = requests s \<and> logged s' = logged s"
  by (auto simp: save_person_def split: if_splits)

lemma linkPeople_frame:
  "linkPeople env noteId ps s = (r, s') \<Longrightarrow>
   noteDocs s' = noteDocs s \<and> meetingDocs s' = meetingDocs s \<and> reminderDocs s' = reminderDocs s
   \<and> requests s' = requests s \<and> logged s' = logged s"
proof (induction ps arbitrary: s)
  case Nil
  then show ?case by (simp add: io_return_def)
next
  case (Cons p ps)
  show ?case
  proof (cases "isValidObjectId env noteId")
    case False
    with Cons.prems show ?thesis
      by (auto simp: io_bind_def newObjectId_def io_throw_def)
  next
    case True
    show ?thesis
    proof (cases "save_person env (p\<lparr>IPerson.linkedNotes := IPerson.linkedNotes p @ [noteId]\<rparr>) s")
      case (Pair q s1)
      show ?thesis
      proof (cases q)
        case (Inl e)
        with Pair True Cons.prems have "s' = s1"
          by (auto simp: io_bind_def newObjectId_def io_return_def)
        with save_person_frame[OF Pair] show ?thesis by simp
      next
        case (Inr u)
        with Pair True Cons.prems have "linkPeople env noteId ps s1 = (r, s')"
          by (auto simp: io_bind_def newObjectId_def io_return_def)
        from Cons.IH[OF this] save_person_frame[OF Pair] show ?thesis by simp
      qed
    qed
  qed
qed

lemma people_step_frame:
  "(case people entities of
      None \<Rightarrow> io_return ()
    | Some names \<Rightarrow>
        if length names > 0 then
          io_bind (newObjectId env user_id) (\<lambda>uid.
          io_bind (Person_find_byNames uid names) (\<lambda>relatedPeople.
          linkPeople env noteId relatedPeople))
        else io_return ()) s = (r, s') \<Longrightarrow>
   noteDocs s' = noteDocs s \<and> meetingDocs s' = meetingDocs s \<and> reminderDocs s' = reminderDocs s
   \<and> requests s' = requests s \<and> logged s' = logged s"
  by (auto simp: io_return_def io_bind_def newObjectId_def io_throw_def Person_find_byNames_def
      split: option.splits if_splits dest: linkPeople_frame)

lemma findConnections_Inr:
  "findConnections env src tgts s = (Inr cs, s') \<Longrightarrow>
   chatConnections env src tgts = Inr cs \<and> noteDocs s' = noteDocs s"
  by (auto simp: findConnections_def try_catch_def post_def io_bind_def logger_error_def io_throw_def
      split: sum.splits)

text \<open>
  C4. Whenever the \<^verbatim>\<open>try\<close> block of \<open>linkNoteToEntities\<close> runs to its end, the candidate
  window \<open>allNotes\<close> (the owner's first 50 notes other than the note itself) is not empty and
  the similarity capability answered \<open>connections\<close> for it, the stored note has gained, after
  what it linked before, exactly the ids of the candidates of the connections whose score
  is strictly greater than 0.6, in the order of the connections: a connection is linked if
  and only if its score exceeds 0.6.
\<close>

theorem threshold_links:
  assumes run: "linkNoteToEntities_try env user_id noteId noteContent s = (Inr (), s')"
    and window: "fst (Note_find_others env user_id noteId 50 s) = Inr allNotes"
    and nonempty: "allNotes \<noteq> []"
    and reply: "chatConnections env noteContent (map content allNotes) = Inr connections"
    and current: "find (\<lambda>x. INote.oid x = noteId) (noteDocs s) = Some currentNote"
  shows "find (\<lambda>x. INote.oid x = noteId)
           (noteDocs (snd (linkNoteToEntities env user_id noteId noteContent s)))
         = Some (currentNote\<lparr>linkedEntities := linkedEntities currentNote
              @ map (\<lambda>k. INote.oid (allNotes ! nat (index k)))
                  (filter (\<lambda>k. 0.6 < score k) connections)\<rparr>)"
proof -
  from run obtain entities s1 u1 s2 uid s3 allNotes' s4 u2 s5
    where e1: "extractEntities env noteContent s = (Inr entities, s1)"
      and e2: "(case people entities of
                  None \<Rightarrow> io_return ()
                | Some names \<Rightarrow>
                    if length names > 0 then
                      io_bind (newObjectId env user_id) (\<lambda>uid.
                      io_bind (Person_find_byNames uid names) (\<lambda>relatedPeople.
                      linkPeople env noteId relatedPeople))
                    else io_return ()) s1 = (Inr u1, s2)"
      and e3: "newObjectId env user_id s2 = (Inr uid, s3)"
      and e4: "Note_find_others env uid noteId 50 s3 = (Inr allNotes', s4)"
      and e5: "(if length allNotes' > 0 then
          io_bind (findConnections env noteContent (map content allNotes')) (\<lambda>connections.
          io_bind (Note_findById env noteId) (\<lambda>currentNote.
            case currentNote of
              None \<Rightarrow> io_return ()
            | Some cn \<Rightarrow>
                io_bind (io_lift (pushConnections allNotes' connections (linkedEntities cn))) (\<lambda>linked.
                save_note env (cn\<lparr>linkedEntities := linked\<rparr>))))
        else io_return ()) s4 = (Inr u2, s5)"
      and e6: "logger_info (''Linked note '' @ noteId @ '' to related entities'') s5 = (Inr (), s')"
    unfolding linkNoteToEntities_try_def
    by (elim io_bind_InrE) blast
  have n1: "noteDocs s1 = noteDocs s"
    using extractEntities_frame[OF e1] by simp
  have n2: "noteDocs s2 = noteDocs s"
    using people_step_frame[OF e2] n1 by simp
  from e3 have uid: "uid = user_id" and s3: "s3 = s2"
    by (auto simp: newObjectId_def io_return_def io_throw_def split: if_splits)
  from e4 have s4: "s4 = s3" and valid: "isValidObjectId env noteId"
    and w': "allNotes' = take 50 (filter (\<lambda>n. INote.userId n = uid \<and> INote.oid n \<noteq> noteId) (noteDocs s3))"
    by (auto simp: Note_find_others_def castObjectId_def io_bind_def io_return_def io_throw_def
        split: if_splits)
  from window valid
  have w: "allNotes = take 50 (filter (\<lambda>n. INote.userId n = user_id \<and> INote.oid n \<noteq> noteId) (noteDocs s))"
    by (auto simp: Note_find_others_def castObjectId_def io_bind_def io_return_def)
  have same: "allNotes' = allNotes"
    using w w' uid s3 n2 by simp
  from e5 same nonempty obtain cs s6 cur s7 where
    f1: "findConnections env noteContent (map content allNotes) s4 = (Inr cs, s6)"
    and f2: "Note_findById env noteId s6 = (Inr cur, s7)"
    and f3: "(case cur of
              None \<Rightarrow> io_return ()
            | Some cn \<Rightarrow>
                io_bind (io_lift (pushConnections allNotes cs (linkedEntities cn))) (\<lambda>linked.
                save_note env (cn\<lparr>linkedEntities := linked\<rparr>))) s7 = (Inr u2, s5)"
    by (auto elim!: io_bind_InrE)
  from findConnections_Inr[OF f1] reply have cs: "cs = connections" and n6: "noteDocs s6 = noteDocs s"
    using s4 s3 n2 by auto
  from f2 valid have s7: "s7 = s6" and cur: "cur = find (\<lambda>n. INote.oid n = noteId) (noteDocs s6)"
    by (auto simp: Note_findById_def castObjectId_def io_bind_def io_return_def)
  with current n6 have cur': "cur = Some currentNote" by simp
  from f3 cur' obtain linked s8 where
    g1: "io_lift (pushConnections allNotes cs (linkedEntities currentNote)) s7 = (Inr linked, s8)"
    and g2: "save_note env (currentNote\<lparr>linkedEntities := linked\<rparr>) s8 = (Inr u2, s5)"
    by (auto elim!: io_bind_InrE)
  from g1 have s8: "s8 = s7" and push: "pushConnections allNotes cs (linkedEntities currentNote) = Inr linked"
    by (auto simp: io_lift_def)
  have linked: "linked = linkedEntities currentNote
      @ map (\<lambda>k. INote.oid (allNotes ! nat (index k))) (filter (\<lambda>k. 0.6 < score k) connections)"
    using pushConnections_Inr[OF push] cs by simp
  from g2 have n5: "noteDocs s5 = replaceOne INote.oid (currentNote\<lparr>linkedEntities := linked\<rparr>) (noteDocs s8)"
    by (auto simp: save_note_def split: if_splits)
  from current have key: "INote.oid currentNote = noteId"
    by (auto simp: find_Some_iff)
  have "find (\<lambda>x. INote.oid x = noteId) (noteDocs s5) = Some (currentNote\<lparr>linkedEntities := linked\<rparr>)"
    unfolding n5 s8 s7 n6
    by (rule find_replaceOne[OF current]) (simp add: key)
  moreover from e6 have "noteDocs s' = noteDocs s5"
    by (auto simp: logger_info_def)
  moreover from run have "snd (linkNoteToEntities env user_id noteId noteContent s) = s'"
    by (simp add: linkNoteToEntities_def try_catch_def)
  ultimately show ?thesis
    using linked by simp
qed

theorem threshold_links_witness:
  "linkNoteToEntities_try env0 ''u1'' ''n1'' (content note1) store0
     = (Inr (), store0\<lparr>personDocs := [john\<lparr>IPerson.linkedNotes := [''n1'']\<rparr>],
                       noteDocs := [note1\<lparr>linkedEntities := [''n3'']\<rparr>, note2, note3],
                       logged := [Info ''Linked note n1 to related entities''],
                       requests := [EntitiesRequest (content note1),
                                    ConnectionsRequest (content note1) [content note2, content note3]]\<rparr>)
   \<and> fst (Note_find_others env0 ''u1'' ''n1'' 50 store0) = Inr [note2, note3]
   \<and> chatConnections env0 (content note1) (map content [note2, note3])
       = Inr [\<lparr>index = 0, score = 0.6\<rparr>, \<lparr>index = 1, score = 0.9\<rparr>]
   \<and> find (\<lambda>x. INote.oid x = ''n1'') (noteDocs store0) = Some note1
   \<and> find (\<lambda>x. INote.oid x = ''n1'')
        (noteDocs (snd (linkNoteToEntities env0 ''u1'' ''n1'' (content note1) store0)))
       = Some (note1\<lparr>linkedEntities := [''n3'']\<rparr>)"
proof -
  have h1: "linkNoteToEntities_try env0 ''u1'' ''n1'' (content note1) store0
     = (Inr (), store0\<lparr>personDocs := [john\<lparr>IPerson.linkedNotes := [''n1'']\<rparr>],
                       noteDocs := [note1\<lparr>linkedEntities := [''n3'']\<rparr>, note2, note3],
                       logged := [Info ''Linked note n1 to related entities''],
                       requests := [EntitiesRequest (content note1),
                                    ConnectionsRequest (content note1) [content note2, content note3]]\<rparr>)"
    by (simp add: linkNoteToEntities_try_def io_defs fixture_defs)
  have h2: "fst (Note_find_others env0 ''u1'' ''n1'' 50 store0) = Inr [note2, note3]"
    by (simp add: io_defs fixture_defs)
  have h3: "[note2, note3] \<noteq> []" by simp
  have h4: "chatConnections env0 (content note1) (map content [note2, note3])
       = Inr [\<lparr>index = 0, score = 0.6\<rparr>, \<lparr>index = 1, score = 0.9\<rparr>]"
    by (simp add: env0_def)
  have h5: "find (\<lambda>x. INote.oid x = ''n1'') (noteDocs store0) = Some note1"
    by (simp add: fixture_defs)
  from threshold_links[OF h1 h2 h3 h4 h5] h1 h2 h4 h5 show ?thesis
    by (simp add: note1_def note3_def)
qed

section \<open>The order of the connections\<close>

text \<open>
  C6 (as the code has it). \<open>findConnections\<close> returns the connections of the reply as they
  are, in the order of the reply: nothing is sorted and no tie is broken. The loop that
  consumes them links in that same order.
\<close>

theorem connections_keep_reply_order:
  assumes "chatConnections env sourceText targetTexts = Inr cs"
  shows "findConnections env sourceText targetTexts s
           = (Inr cs, s\<lparr>requests := requests s @ [ConnectionsRequest sourceText targetTexts]\<rparr>)
         \<and> (\<forall>allNotes linked linked'.
               pushConnections allNotes cs linked = Inr linked' \<longrightarrow>
               linked' = linked @ map (\<lambda>k. INote.oid (allNotes ! nat (index k)))
                                    (filter (\<lambda>k. 0.6 < score k) cs))"
  using assms
  by (auto simp: findConnections_def try_catch_def post_def dest: pushConnections_Inr)

theorem connections_keep_reply_order_witness:
  "chatConnections env0 (content note1) [content note2, content note3]
     = Inr [\<lparr>index = 0, score = 0.6\<rparr>, \<lparr>index = 1, score = 0.9\<rparr>]
   \<and> findConnections env0 (content note1) [content note2, content note3] store0
     = (Inr [\<lparr>index = 0, score = 0.6\<rparr>, \<lparr>index = 1, score = 0.9\<rparr>],
        store0\<lparr>requests := [ConnectionsRequest (content note1) [content note2, content note3]]\<rparr>)
   \<and> pushConnections [note2, note3] [\<lparr>index = 0, score = 0.6\<rparr>, \<lparr>index = 1, score = 0.9\<rparr>] [''n2'']
     = Inr [''n2'', ''n3'']"
proof -
  have h: "chatConnections env0 (content note1) [content note2, content note3]
     = Inr [\<lparr>index = 0, score = 0.6\<rparr>, \<lparr>index = 1, score = 0.9\<rparr>]"
    by (simp add: env0_def)
  have p: "pushConnections [note2, note3] [\<lparr>index = 0, score = 0.6\<rparr>, \<lparr>index = 1, score = 0.9\<rparr>] [''n2'']
     = Inr [''n2'', ''n3'']"
    by (simp add: at_index_def note3_def)
  from connections_keep_reply_order[OF h, of store0] h p show ?thesis
    by (simp add: store0_def)
qed

text \<open>
  C6 as stated fails: the reply of the small environment lists candidate 0 at score 0.6
  before candidate 1 at score 0.9, and \<open>findConnections\<close> returns it in that ascending order.
\<close>

theorem connections_not_ranked:
  "fst (findConnections env0 (content note1) [content note2, content note3] store0)
     = Inr [\<lparr>index = 0, score = 0.6\<rparr>, \<lparr>index = 1, score = 0.9\<rparr>]
   \<and> \<not> rankedOrder [\<lparr>index = 0, score = 0.6\<rparr>, \<lparr>index = 1, score = 0.9\<rparr>]"
  by (simp add: findConnections_def try_catch_def post_def env0_def rankedOrder_def)

section \<open>Linking a note twice\<close>

text \<open>
  C1, at a failing input. Linking note \<open>n1\<close> twice with the same inputs pushes its id a
  second time onto John's \<open>linkedNotes\<close> and the id of note \<open>n3\<close> a second time onto the
  note's \<open>linkedEntities\<close>: both pushes are unconditional.
\<close>

theorem relinking_duplicates_links:
  "personDocs (snd (linkNoteToEntities env0 ''u1'' ''n1'' (content note1) store0))
     = [john\<lparr>IPerson.linkedNotes := [''n1'']\<rparr>]
   \<and> noteDocs (snd (linkNoteToEntities env0 ''u1'' ''n1'' (content note1) store0))
     = [note1\<lparr>linkedEntities := [''n3'']\<rparr>, note2, note3]
   \<and> personDocs (snd (linkNoteToEntities env0 ''u1'' ''n1'' (content note1)
        (snd (linkNoteToEntities env0 ''u1'' ''n1'' (content note1) store0))))
     = [john\<lparr>IPerson.linkedNotes := [''n1'', ''n1'']\<rparr>]
   \<and> noteDocs (snd (linkNoteToEntities env0 ''u1'' ''n1'' (content note1)
        (snd (linkNoteToEntities env0 ''u1'' ''n1'' (content note1) store0))))
     = [note1\<lparr>linkedEntities := [''n3'', ''n3'']\<rparr>, note2, note3]"
  by (simp add: linkNoteToEntities_def linkNoteToEntities_try_def io_defs fixture_defs)

section \<open>Failures inside an entry point\<close>










section \<open>Empty text\<close>

text \<open>
  C8 (as the code has it). On the empty text \<open>linkNoteToEntities\<close> runs the same pipeline
  as on any other text: the extraction request is sent with the empty text. It returns
  normally in every case, and when extraction names nobody and the similarity capability
  answers with no connection for the candidate window, no document of any collection is
  changed.
\<close>

theorem empty_text_not_short_circuited:
  assumes bag: "chatEntities env [] = Inr bag"
    and nobody: "people bag = None \<or> people bag = Some []"
    and unrelated: "chatConnections env []
        (map content (take 50 (filter (\<lambda>n. INote.userId n = user_id \<and> INote.oid n \<noteq> noteId) (noteDocs s))))
        = Inr []"
  shows "fst (linkNoteToEntities env user_id noteId [] s) = Inr ()
    \<and> (\<exists>more. requests (snd (linkNoteToEntities env user_id noteId [] s))
                = requests s @ EntitiesRequest [] # more)
    \<and> personDocs (snd (linkNoteToEntities env user_id noteId [] s)) = personDocs s
    \<and> noteDocs (snd (linkNoteToEntities env user_id noteId [] s)) = noteDocs s
    \<and> meetingDocs (snd (linkNoteToEntities env user_id noteId [] s)) = meetingDocs s
    \<and> reminderDocs (snd (linkNoteToEntities env user_id noteId [] s)) = reminderDocs s"
proof -
  have p: "(case people bag of
              None \<Rightarrow> io_return ()
            | Some names \<Rightarrow>
                if length names > 0 then
                  io_bind (newObjectId env user_id) (\<lambda>uid.
                  io_bind (Person_find_byNames uid names) (\<lambda>relatedPeople.
                  linkPeople env noteId relatedPeople))
                else io_return ()) = io_return ()"
    using nobody by auto
  show ?thesis
    unfolding linkNoteToEntities_def linkNoteToEntities_try_def
    using unrelated bag
    by (auto simp: p io_defs replaceOne_same split: option.splits)
qed

theorem empty_text_not_short_circuited_witness:
  "chatEntities env_quiet [] = Inr \<lparr>people = Some []\<rparr>
   \<and> chatConnections env_quiet [] [content note2, content note3] = Inr []
   \<and> linkNoteToEntities env_quiet ''u1'' ''n1'' [] store0
      = (Inr (), store0\<lparr>logged := [Info ''Linked note n1 to related entities''],
                        requests := [EntitiesRequest [], ConnectionsRequest [] [content note2, content note3]]\<rparr>)
   \<and> personDocs (snd (linkNoteToEntities env_quiet ''u1'' ''n1'' [] store0)) = personDocs store0
   \<and> noteDocs (snd (linkNoteToEntities env_quiet ''u1'' ''n1'' [] store0)) = noteDocs store0"
proof -
  have h1: "chatEntities env_quiet [] = Inr \<lparr>people = Some []\<rparr>"
    by (simp add: env_quiet_def)
  have h2: "people \<lparr>people = Some []\<rparr> = None \<or> people \<lparr>people = Some []\<rparr> = Some []"
    by simp
  have h3: "chatConnections env_quiet []
        (map content (take 50 (filter (\<lambda>n. INote.userId n = ''u1'' \<and> INote.oid n \<noteq> ''n1'') (noteDocs store0))))
        = Inr []"
    by (simp add: env_quiet_def)
  have h4: "chatConnections env_quiet [] [content note2, content note3] = Inr []"
    by (simp add: env_quiet_def)
  have run: "linkNoteToEntities env_quiet ''u1'' ''n1'' [] store0
      = (Inr (), store0\<lparr>logged := [Info ''Linked note n1 to related entities''],
                        requests := [EntitiesRequest [], ConnectionsRequest [] [content note2, content note3]]\<rparr>)"
    by (simp add: linkNoteToEntities_def linkNoteToEntities_try_def io_defs fixture_defs env_quiet_def)
  from empty_text_not_short_circuited[OF h1 h2 h3] h1 h4 run show ?thesis
    by simp
qed

text \<open>
  C8 as stated fails: nothing short-circuits on the empty text. In the small environment
  both capabilities are asked about the empty text, and their answers link John and
  note \<open>n3\<close>.
\<close>

theorem empty_text_is_processed:
  "linkNoteToEntities env0 ''u1'' ''n1'' [] store0
     = (Inr (), store0\<lparr>personDocs := [john\<lparr>IPerson.linkedNotes := [''n1'']\<rparr>],
                       noteDocs := [note1\<lparr>linkedEntities := [''n3'']\<rparr>, note2, note3],
                       logged := [Info ''Linked note n1 to related entities''],
                       requests := [EntitiesRequest [],
                                    ConnectionsRequest [] [content note2, content note3]]\<rparr>)"
  by (simp add: linkNoteToEntities_def linkNoteToEntities_try_def io_defs fixture_defs)

section \<open>Matching people by name\<close>

lemma linkPeople_Inr:
  "linkPeople env noteId rel s = (Inr u, s') \<Longrightarrow>
   personDocs s' = foldl (\<lambda>docs q. replaceOne IPerson.oid
                      (q\<lparr>IPerson.linkedNotes := IPerson.linkedNotes q @ [noteId]\<rparr>) docs)
                    (personDocs s) rel"
proof (induction rel arbitrary: s)
  case Nil
  then show ?case by (simp add: io_return_def)
next
  case (Cons p rel)
  from Cons.prems obtain nid s1 v s2 where
    a: "newObjectId env noteId s = (Inr nid, s1)"
    and b: "save_person env (p\<lparr>IPerson.linkedNotes := IPerson.linkedNotes p @ [nid]\<rparr>) s1 = (Inr v, s2)"
    and c: "linkPeople env noteId rel s2 = (Inr u, s')"
    by (auto elim!: io_bind_InrE)
  from a have nid: "nid = noteId" and s1: "s1 = s"
    by (auto simp: newObjectId_def io_return_def io_throw_def split: if_splits)
  from b have "personDocs s2 = replaceOne IPerson.oid
      (p\<lparr>IPerson.linkedNotes := IPerson.linkedNotes p @ [nid]\<rparr>) (personDocs s1)"
    by (auto simp: save_person_def split: if_splits)
  with Cons.IH[OF c] nid s1 show ?case by simp
qed

lemma foldl_replaceOne_Cons:
  assumes "\<And>q. q \<in> set rel \<Longrightarrow> key (f q) \<noteq> key y"
  shows "foldl (\<lambda>docs q. replaceOne key (f q) docs) (y # ys) rel
         = y # foldl (\<lambda>docs q. replaceOne key (f q) docs) ys rel"
  using assms
proof (induction rel arbitrary: ys)
  case Nil
  then show ?case by simp
next
  case (Cons r rel)
  from Cons.prems[of r] have "key y \<noteq> key (f r)" by auto
  then have "replaceOne key (f r) (y # ys) = y # replaceOne key (f r) ys" by simp
  with Cons.IH[of "replaceOne key (f r) ys"] Cons.prems show ?case by simp
qed

lemma foldl_replaceOne_filter:
  assumes "\<And>q. key (f q) = key q" and "distinct (map key docs)"
  shows "foldl (\<lambda>docs q. replaceOne key (f q) docs) docs (filter P docs)
         = map (\<lambda>q. if P q then f q else q) docs"
  using assms(2)
proof (induction docs)
  case Nil
  then show ?case by simp
next
  case (Cons x xs)
  from Cons.prems have fresh: "\<And>q. q \<in> set (filter P xs) \<Longrightarrow> key (f q) \<noteq> key x"
    using assms(1) by (auto simp: image_iff)
  from Cons.prems have d: "distinct (map key xs)" by simp
  show ?case
  proof (cases "P x")
    case True
    have fresh': "\<And>q. q \<in> set (filter P xs) \<Longrightarrow> key (f q) \<noteq> key (f x)"
      using fresh assms(1) by simp
    from True have "foldl (\<lambda>docs q. replaceOne key (f q) docs) (x # xs) (filter P (x # xs))
        = foldl (\<lambda>docs q. replaceOne key (f q) docs) (f x # xs) (filter P xs)"
      using assms(1) by simp
    also have "\<dots> = f x # foldl (\<lambda>docs q. replaceOne key (f q) docs) xs (filter P xs)"
      by (rule foldl_replaceOne_Cons) (rule fresh')
    finally show ?thesis using Cons.IH[OF d] True by simp
  next
    case False
    then have "foldl (\<lambda>docs q. replaceOne key (f q) docs) (x # xs) (filter P (x # xs))
        = foldl (\<lambda>docs q. replaceOne key (f q) docs) (x # xs) (filter P xs)"
      by simp
    also have "\<dots> = x # foldl (\<lambda>docs q. replaceOne key (f q) docs) xs (filter P xs)"
      by (rule foldl_replaceOne_Cons) (rule fresh)
    finally show ?thesis using Cons.IH[OF d] False by simp
  qed
qed

lemma similarity_step_frame:
  "(if length allNotes > 0 then
      io_bind (findConnections env noteContent (map content allNotes)) (\<lambda>connections.
      io_bind (Note_findById env noteId) (\<lambda>currentNote.
        case currentNote of
          None \<Rightarrow> io_return ()
        | Some cn \<Rightarrow>
            io_bind (io_lift (pushConnections allNotes connections (linkedEntities cn))) (\<lambda>linked.
            save_note env (cn\<lparr>linkedEntities := linked\<rparr>))))
    else io_return ()) s = (r, s') \<Longrightarrow>
   personDocs s' = personDocs s \<and> meetingDocs s' = meetingDocs s \<and> reminderDocs s' = reminderDocs s"
  by (auto simp: io_defs split: if_splits sum.splits option.splits)

lemma extractEntities_Inr:
  "extractEntities env t s = (Inr entities, s') \<Longrightarrow> chatEntities env t = Inr entities"
  by (auto simp: extractEntities_def try_catch_def post_def io_bind_def logger_error_def io_throw_def
      split: sum.splits)

text \<open>
  C5 (as the code has it). Whenever the \<^verbatim>\<open>try\<close> block of \<open>linkNoteToEntities\<close> runs to its
  end, the people collection afterwards is the one before with the note's id pushed onto
  \<open>linkedNotes\<close> of exactly the people of the same owner whose name is equal, as a string,
  to one of the extracted names. Every other person is untouched, no person is created,
  and an extracted name that is nobody's name changes nothing. The \<open>_id\<close>s of the stored
  people are distinct, as the database guarantees.
\<close>

theorem exact_name_links:
  assumes run: "linkNoteToEntities_try env user_id noteId noteContent s = (Inr (), s')"
    and reply: "chatEntities env noteContent = Inr bag"
    and ids: "distinct (map IPerson.oid (personDocs s))"
  shows "personDocs (snd (linkNoteToEntities env user_id noteId noteContent s))
         = map (\<lambda>p. if IPerson.userId p = user_id
                         \<and> name p \<in> set (case people bag of None \<Rightarrow> [] | Some names \<Rightarrow> names)
                      then p\<lparr>IPerson.linkedNotes := IPerson.linkedNotes p @ [noteId]\<rparr>
                      else p)
             (personDocs s)"
proof -
  from run obtain entities s1 u1 s2 uid s3 allNotes s4 u2 s5
    where e1: "extractEntities env noteContent s = (Inr entities, s1)"
      and e2: "(case people entities of
                  None \<Rightarrow> io_return ()
                | Some names \<Rightarrow>
                    if length names > 0 then
                      io_bind (newObjectId env user_id) (\<lambda>uid.
                      io_bind (Person_find_byNames uid names) (\<lambda>relatedPeople.
                      linkPeople env noteId relatedPeople))
                    else io_return ()) s1 = (Inr u1, s2)"
      and e3: "newObjectId env user_id s2 = (Inr uid, s3)"
      and e4: "Note_find_others env uid noteId 50 s3 = (Inr allNotes, s4)"
      and e5: "(if length allNotes > 0 then
          io_bind (findConnections env noteContent (map content allNotes)) (\<lambda>connections.
          io_bind (Note_findById env noteId) (\<lambda>currentNote.
            case currentNote of
              None \<Rightarrow> io_return ()
            | Some cn \<Rightarrow>
                io_bind (io_lift (pushConnections allNotes connections (linkedEntities cn))) (\<lambda>linked.
                save_note env (cn\<lparr>linkedEntities := linked\<rparr>))))
        else io_return ()) s4 = (Inr u2, s5)"
      and e6: "logger_info (''Linked note '' @ noteId @ '' to related entities'') s5 = (Inr (), s')"
    unfolding linkNoteToEntities_try_def
    by (elim io_bind_InrE) blast
  let ?push = "\<lambda>q. q\<lparr>IPerson.linkedNotes := IPerson.linkedNotes q @ [noteId]\<rparr>"
  let ?names = "case people bag of None \<Rightarrow> [] | Some names \<Rightarrow> names"
  let ?P = "\<lambda>p. IPerson.userId p = user_id \<and> name p \<in> set ?names"
  from extractEntities_Inr[OF e1] reply have bag: "entities = bag" by simp
  have p1: "personDocs s1 = personDocs s"
    using extractEntities_frame[OF e1] by simp
  have p2: "personDocs s2 = map (\<lambda>p. if ?P p then ?push p else p) (personDocs s)"
  proof (cases "?names = []")
    case True
    with e2 bag have "s2 = s1"
      by (auto simp: io_return_def split: option.splits if_splits)
    with True p1 show ?thesis by simp
  next
    case False
    then obtain names where names: "people bag = Some names" "names \<noteq> []"
      by (auto split: option.splits)
    with e2 bag obtain uid' t1 rel t2 where
      a: "newObjectId env user_id s1 = (Inr uid', t1)"
      and b: "Person_find_byNames uid' names t1 = (Inr rel, t2)"
      and c: "linkPeople env noteId rel t2 = (Inr u1, s2)"
      by (auto elim!: io_bind_InrE)
    from a have "uid' = user_id" "t1 = s1"
      by (auto simp: newObjectId_def io_return_def io_throw_def split: if_splits)
    with b names p1 have rel: "rel = filter ?P (personDocs s)" and t2: "t2 = s1"
      by (auto simp: Person_find_byNames_def)
    have "personDocs s2 = foldl (\<lambda>docs q. replaceOne IPerson.oid (?push q) docs)
                            (personDocs s) (filter ?P (personDocs s))"
      using linkPeople_Inr[OF c] rel t2 p1 by simp
    also have "\<dots> = map (\<lambda>p. if ?P p then ?push p else p) (personDocs s)"
      by (rule foldl_replaceOne_filter) (simp_all add: ids)
    finally show ?thesis .
  qed
  from e3 have "s3 = s2"
    by (auto simp: newObjectId_def io_return_def io_throw_def split: if_splits)
  moreover from e4 have "s4 = s3"
    by (auto simp: Note_find_others_def castObjectId_def io_bind_def io_return_def io_throw_def
        split: if_splits)
  moreover have "personDocs s5 = personDocs s4"
    using similarity_step_frame[OF e5] by simp
  moreover from e6 have "personDocs s' = personDocs s5"
    by (auto simp: logger_info_def)
  moreover from run have "snd (linkNoteToEntities env user_id noteId noteContent s) = s'"
    by (simp add: linkNoteToEntities_def try_catch_def)
  ultimately show ?thesis
    using p2 by simp
qed

theorem exact_name_links_witness:
  "linkNoteToEntities_try env_mary_refused ''u2'' ''n1'' (content note1) store_three
     = (Inr (), store_three\<lparr>logged := [Info ''Linked note n1 to related entities''],
                            requests := [EntitiesRequest (content note1)]\<rparr>)
   \<and> linkNoteToEntities_try env0 ''u1'' ''n1'' (content note1) store_three
     = (Inr (), store_three\<lparr>personDocs := [john\<lparr>IPerson.linkedNotes := [''n1'']\<rparr>, mary, ann],
                       noteDocs := [note1\<lparr>linkedEntities := [''n3'']\<rparr>, note2, note3],
                       logged := [Info ''Linked note n1 to related entities''],
                       requests := [EntitiesRequest (content note1),
                                    ConnectionsRequest (content note1) [content note2, content note3]]\<rparr>)
   \<and> chatEntities env0 (content note1) = Inr \<lparr>people = Some [''John'']\<rparr>
   \<and> distinct (map IPerson.oid (personDocs store_three))
   \<and> personDocs (snd (linkNoteToEntities env0 ''u1'' ''n1'' (content note1) store_three))
     = [john\<lparr>IPerson.linkedNotes := [''n1'']\<rparr>, mary, ann]"
proof -
  have h0: "linkNoteToEntities_try env_mary_refused ''u2'' ''n1'' (content note1) store_three
     = (Inr (), store_three\<lparr>logged := [Info ''Linked note n1 to related entities''],
                            requests := [EntitiesRequest (content note1)]\<rparr>)"
    by (simp add: linkNoteToEntities_try_def io_defs fixture_defs env_mary_refused_def
        store_three_def mary_def ann_def)
  have h1: "linkNoteToEntities_try env0 ''u1'' ''n1'' (content note1) store_three
     = (Inr (), store_three\<lparr>personDocs := [john\<lparr>IPerson.linkedNotes := [''n1'']\<rparr>, mary, ann],
                       noteDocs := [note1\<lparr>linkedEntities := [''n3'']\<rparr>, note2, note3],
                       logged := [Info ''Linked note n1 to related entities''],
                       requests := [EntitiesRequest (content note1),
                                    ConnectionsRequest (content note1) [content note2, content note3]]\<rparr>)"
    by (simp add: linkNoteToEntities_try_def io_defs fixture_defs env_mary_refused_def
        store_three_def mary_def ann_def)
  have h2: "chatEntities env0 (content note1) = Inr \<lparr>people = Some [''John'']\<rparr>"
    by (simp add: env0_def)
  have h3: "distinct (map IPerson.oid (personDocs store_three))"
    by (simp add: fixture_defs store_three_def mary_def ann_def)
  from exact_name_links[OF h1 h2 h3]
  have "personDocs (snd (linkNoteToEntities env0 ''u1'' ''n1'' (content note1) store_three))
     = [john\<lparr>IPerson.linkedNotes := [''n1'']\<rparr>, mary, ann]"
    by (simp add: store_three_def store0_def john_def mary_def ann_def)
  with h0 h1 h2 h3 show ?thesis by simp
qed

text \<open>
  C5 as stated fails: the names are compared as they are, not case-insensitively. The
  extracted name \<open>john\<close> equals John's name once both are lower-cased, yet the run links
  nobody.
\<close>

theorem name_match_is_case_sensitive:
  "toLowerCase (name john) = toLowerCase ''john''
   \<and> linkNoteToEntities env_lowercase ''u1'' ''n1'' (content note1) store0
     = (Inr (), store0\<lparr>noteDocs := [note1\<lparr>linkedEntities := [''n3'']\<rparr>, note2, note3],
                       logged := [Info ''Linked note n1 to related entities''],
                       requests := [EntitiesRequest (content note1),
                                    ConnectionsRequest (content note1) [content note2, content note3]]\<rparr>)
   \<and> personDocs (snd (linkNoteToEntities env_lowercase ''u1'' ''n1'' (content note1) store0)) = [john]"
  by (simp add: linkNoteToEntities_def linkNoteToEntities_try_def io_defs fixture_defs env_lowercase_def
      toLowerCase_def toLowerChar_def)

section \<open>Reminders from action items\<close>





section \<open>The daily summary\<close>

lemma compileContent_empty:
  "compileContent dayNotes dayMeetings = [] \<longleftrightarrow> dayNotes = [] \<and> dayMeetings = []"
  by (simp add: compileContent_def)

text \<open>
  C9. Let the day window be the day of the given date (of the clock when none is given),
  from 00:00:00.000 to 23:59:59.999, and let \<open>dayNotes\<close> and \<open>dayMeetings\<close> be the owner's
  notes created and meetings dated in it. When both are empty, \<open>generateDailySummary\<close>
  returns the sentinel text and leaves the store as it was: no request is sent. Otherwise
  it sends exactly one summary request, carrying the compiled outline, and its result is
  the reply of the summarization capability (the summary, or the failure rethrown).
\<close>

theorem daily_summary_sentinel:
  assumes owner: "isValidObjectId env user_id"
    and day: "d = (case dateArg of None \<Rightarrow> clock env | Some x \<Rightarrow> x)"
    and dayNotes: "dayNotes = filter (\<lambda>n. INote.userId n = user_id
                      \<and> date_le (setHours 0 0 0 0 d) (createdAt n)
                      \<and> date_le (createdAt n) (setHours 23 59 59 999 d)) (noteDocs s)"
    and dayMeetings: "dayMeetings = filter (\<lambda>m. IMeeting.userId m = user_id
                      \<and> date_le (setHours 0 0 0 0 d) (date m)
                      \<and> date_le (date m) (setHours 23 59 59 999 d)) (meetingDocs s)"
  shows "(dayNotes = [] \<and> dayMeetings = [] \<longrightarrow>
            generateDailySummary env user_id dateArg s = (Inr ''No activity recorded for today.'', s))
       \<and> (dayNotes \<noteq> [] \<or> dayMeetings \<noteq> [] \<longrightarrow>
            requests (snd (generateDailySummary env user_id dateArg s))
              = requests s @ [SummaryRequest (compileContent dayNotes dayMeetings)]
            \<and> fst (generateDailySummary env user_id dateArg s)
              = chatSummary env (compileContent dayNotes dayMeetings))"
proof -
  have quiet: "generateDailySummary env user_id dateArg s = (Inr ''No activity recorded for today.'', s)"
    if "dayNotes = [] \<and> dayMeetings = []"
    using that owner dayNotes dayMeetings day
    by (simp add: generateDailySummary_def Let_def try_catch_def io_bind_def newObjectId_def
        io_return_def Note_find_created_def Meeting_find_dated_def compileContent_def)
  have busy: "requests (snd (generateDailySummary env user_id dateArg s))
              = requests s @ [SummaryRequest (compileContent dayNotes dayMeetings)]
            \<and> fst (generateDailySummary env user_id dateArg s)
              = chatSummary env (compileContent dayNotes dayMeetings)"
    if ne: "dayNotes \<noteq> [] \<or> dayMeetings \<noteq> []"
  proof -
    from ne have c: "compileContent dayNotes dayMeetings \<noteq> []"
      by (simp add: compileContent_empty)
    have run: "generateDailySummary env user_id dateArg s =
      try_catch
        (io_bind (AIService_generateDailySummary env (compileContent dayNotes dayMeetings)) (\<lambda>summary.
         io_bind (logger_info (''Generated daily summary for user '' @ user_id)) (\<lambda>_.
         io_return summary)))
        (\<lambda>e. io_bind (logger_error ''Error generating daily summary:'' e) (\<lambda>_. io_throw e)) s"
      using owner dayNotes dayMeetings day c
      by (simp add: generateDailySummary_def Let_def try_catch_def io_bind_def newObjectId_def
          io_return_def Note_find_created_def Meeting_find_dated_def)
    show ?thesis
      unfolding run
      by (cases "chatSummary env (compileContent dayNotes dayMeetings)")
        (simp_all add: AIService_generateDailySummary_def try_catch_def post_def io_bind_def
          logger_error_def logger_info_def io_throw_def io_return_def)
  qed
  from quiet busy show ?thesis by blast
qed

theorem daily_summary_sentinel_witness:
  "isValidObjectId env0 ''u1''
   \<and> generateDailySummary env0 ''u1'' (Some \<lparr>dayNumber = 5, msOfDay = 0\<rparr>) store0
       = (Inr ''No activity recorded for today.'', store0)
   \<and> requests (snd (generateDailySummary env0 ''u1'' None store0))
       = [SummaryRequest (compileContent [note1, note2, note3] [meeting1])]
   \<and> fst (generateDailySummary env0 ''u1'' None store0) = Inr ''A day about the budget.''"
proof -
  have h: "isValidObjectId env0 ''u1''"
    by (simp add: env0_def)
  have quiet: "generateDailySummary env0 ''u1'' (Some \<lparr>dayNumber = 5, msOfDay = 0\<rparr>) store0
       = (Inr ''No activity recorded for today.'', store0)"
    using daily_summary_sentinel[OF h refl refl refl, of "Some \<lparr>dayNumber = 5, msOfDay = 0\<rparr>" store0]
    by (simp add: fixture_defs date_le_def setHours_def)
  have busy: "requests (snd (generateDailySummary env0 ''u1'' None store0))
       = [SummaryRequest (compileContent [note1, note2, note3] [meeting1])]
     \<and> fst (generateDailySummary env0 ''u1'' None store0) = Inr ''A day about the budget.''"
    using daily_summary_sentinel[OF h refl refl refl, of None store0]
    by (simp add: fixture_defs date_le_def setHours_def)
  from h quiet busy show ?thesis by simp
qed

section \<open>Linking a person\<close>

lemma pushMentioningNotes_pushAbsent:
  "pushMentioningNotes personName ns linked
   = pushAbsent (map INote.oid
       (filter (\<lambda>n. includes' (toLowerCase (content n)) (toLowerCase personName)) ns)) linked"
  by (induction ns arbitrary: linked) simp_all

lemma pushMentioningMeetings_pushAbsent:
  "pushMentioningMeetings personName ms linked
   = pushAbsent (map IMeeting.oid
       (filter (\<lambda>m. includes' (toLowerCase (IMeeting.title m)) (toLowerCase personName)) ms)) linked"
  by (induction ms arbitrary: linked) simp_all

lemma pushAbsent_appends:
  "\<exists>added. pushAbsent ids linked = linked @ added \<and> distinct added
           \<and> set added \<inter> set linked = {} \<and> set added \<subseteq> set ids"
proof (induction ids arbitrary: linked)
  case Nil
  then show ?case by simp
next
  case (Cons i ids)
  show ?case
  proof (cases "i \<in> set linked")
    case True
    with Cons.IH[of linked] show ?thesis by auto
  next
    case False
    from Cons.IH[of "linked @ [i]"] obtain added where
      a: "pushAbsent ids (linked @ [i]) = (linked @ [i]) @ added" "distinct added"
         "set added \<inter> set (linked @ [i]) = {}" "set added \<subseteq> set ids"
      by blast
    from a False have "pushAbsent (i # ids) linked = linked @ (i # added)" by simp
    moreover from a have "distinct (i # added)" by auto
    moreover from a False have "set (i # added) \<inter> set linked = {}" by auto
    moreover from a have "set (i # added) \<subseteq> set (i # ids)" by auto
    ultimately show ?thesis by blast
  qed
qed

lemma set_pushAbsent: "set (pushAbsent ids linked) = set linked \<union> set ids"
  by (induction ids arbitrary: linked) auto

lemma pushAbsent_present: "set ids \<subseteq> set linked \<Longrightarrow> pushAbsent ids linked = linked"
  by (induction ids arbitrary: linked) auto

lemma pushAbsent_idem: "pushAbsent ids (pushAbsent ids linked) = pushAbsent ids linked"
  by (rule pushAbsent_present) (simp add: set_pushAbsent)

text \<open>
  C10. Running \<open>linkPersonToRelevantData\<close> again with the same inputs, on the store the
  first run left, leaves the people as the first run left them (notes and meetings are
  never written). For the person being linked, the run only appends to \<open>linkedNotes\<close> and
  to \<open>meetings\<close>, and what it appends has no repetition and nothing the list already
  held: an id is pushed only when it is absent. So a list without duplicates stays without
  duplicates.
\<close>

theorem linkPerson_idempotent:
  "personDocs (snd (linkPersonToRelevantData env user_id personId personName
        (snd (linkPersonToRelevantData env user_id personId personName s))))
     = personDocs (snd (linkPersonToRelevantData env user_id personId personName s))
   \<and> noteDocs (snd (linkPersonToRelevantData env user_id personId personName s)) = noteDocs s
   \<and> meetingDocs (snd (linkPersonToRelevantData env user_id personId personName s)) = meetingDocs s
   \<and> (\<forall>p. find (\<lambda>q. IPerson.oid q = personId) (personDocs s) = Some p \<longrightarrow>
        (\<exists>p' addedNotes addedMeetings.
           find (\<lambda>q. IPerson.oid q = personId)
             (personDocs (snd (linkPersonToRelevantData env user_id personId personName s))) = Some p'
           \<and> IPerson.linkedNotes p' = IPerson.linkedNotes p @ addedNotes
           \<and> distinct addedNotes \<and> set addedNotes \<inter> set (IPerson.linkedNotes p) = {}
           \<and> meetings p' = meetings p @ addedMeetings
           \<and> distinct addedMeetings \<and> set addedMeetings \<inter> set (meetings p) = {}
           \<and> (distinct (IPerson.linkedNotes p) \<longrightarrow> distinct (IPerson.linkedNotes p'))
           \<and> (distinct (meetings p) \<longrightarrow> distinct (meetings p'))))"
proof -
  let ?L = "linkPersonToRelevantData env user_id personId personName"
  let ?ns = "\<lambda>t. take 100 (filter (\<lambda>n. INote.userId n = user_id) (noteDocs t))"
  let ?ms = "\<lambda>t. take 100 (filter (\<lambda>m. IMeeting.userId m = user_id) (meetingDocs t))"
  let ?upd = "\<lambda>t p. p\<lparr>IPerson.linkedNotes := pushMentioningNotes personName (?ns t) (IPerson.linkedNotes p),
                       meetings := pushMentioningMeetings personName (?ms t) (meetings p)\<rparr>"
  let ?saves = "\<lambda>t p. isValidObjectId env user_id \<and> isValidObjectId env personId
                  \<and> \<not> saveRejected env PersonModel (IPerson.oid p)"
  have frame: "noteDocs (snd (?L t)) = noteDocs t \<and> meetingDocs (snd (?L t)) = meetingDocs t" for t
    by (auto simp: linkPersonToRelevantData_def linkPersonToRelevantData_try_def io_defs
        split: option.splits)
  have absent: "personDocs (snd (?L t)) = personDocs t"
    if "find (\<lambda>q. IPerson.oid q = personId) (personDocs t) = None" for t
    using that
    by (auto simp: linkPersonToRelevantData_def linkPersonToRelevantData_try_def io_defs)
  have present: "personDocs (snd (?L t))
      = (if ?saves t p then replaceOne IPerson.oid (?upd t p) (personDocs t) else personDocs t)"
    if "find (\<lambda>q. IPerson.oid q = personId) (personDocs t) = Some p" for t p
    using that
    by (auto simp: linkPersonToRelevantData_def linkPersonToRelevantData_try_def io_defs)
  have upd_idem: "?upd t (?upd t p) = ?upd t p" for t p
    by (simp add: pushMentioningNotes_pushAbsent pushMentioningMeetings_pushAbsent pushAbsent_idem)
  have idem: "personDocs (snd (?L (snd (?L s)))) = personDocs (snd (?L s))"
  proof (cases "find (\<lambda>q. IPerson.oid q = personId) (personDocs s)")
    case None
    then have "personDocs (snd (?L s)) = personDocs s" by (rule absent)
    with None absent[of "snd (?L s)"] show ?thesis by simp
  next
    case (Some p)
    show ?thesis
    proof (cases "?saves s p")
      case False
      with present[OF Some] have same: "personDocs (snd (?L s)) = personDocs s" by simp
      with Some have "find (\<lambda>q. IPerson.oid q = personId) (personDocs (snd (?L s))) = Some p" by simp
      from present[OF this] False same show ?thesis by simp
    next
      case True
      with present[OF Some]
      have one: "personDocs (snd (?L s)) = replaceOne IPerson.oid (?upd s p) (personDocs s)" by simp
      from find_key[OF Some] have key: "IPerson.oid (?upd s p) = personId" by simp
      have again: "find (\<lambda>q. IPerson.oid q = personId) (personDocs (snd (?L s))) = Some (?upd s p)"
        unfolding one by (rule find_replaceOne[OF Some key])
      have same_docs: "?upd (snd (?L s)) (?upd s p) = ?upd s p"
        using frame[of s] upd_idem[of s p] by simp
      have "personDocs (snd (?L (snd (?L s))))
          = replaceOne IPerson.oid (?upd s p) (personDocs (snd (?L s)))"
        using present[OF again] True same_docs find_key[OF Some] by simp
      also have "\<dots> = personDocs (snd (?L s))"
        by (rule replaceOne_same[OF again])
      finally show ?thesis .
    qed
  qed
  have fresh: "\<exists>p' addedNotes addedMeetings.
           find (\<lambda>q. IPerson.oid q = personId) (personDocs (snd (?L s))) = Some p'
           \<and> IPerson.linkedNotes p' = IPerson.linkedNotes p @ addedNotes
           \<and> distinct addedNotes \<and> set addedNotes \<inter> set (IPerson.linkedNotes p) = {}
           \<and> meetings p' = meetings p @ addedMeetings
           \<and> distinct addedMeetings \<and> set addedMeetings \<inter> set (meetings p) = {}
           \<and> (distinct (IPerson.linkedNotes p) \<longrightarrow> distinct (IPerson.linkedNotes p'))
           \<and> (distinct (meetings p) \<longrightarrow> distinct (meetings p'))"
    if Some: "find (\<lambda>q. IPerson.oid q = personId) (personDocs s) = Some p" for p
  proof (cases "?saves s p")
    case False
    with present[OF Some] Some
    have "find (\<lambda>q. IPerson.oid q = personId) (personDocs (snd (?L s))) = Some p" by simp
    then show ?thesis
      by (intro exI[of _ p] exI[of _ "[]"]) simp
  next
    case True
    from find_key[OF Some] have key: "IPerson.oid (?upd s p) = personId" by simp
    from True present[OF Some]
    have "find (\<lambda>q. IPerson.oid q = personId) (personDocs (snd (?L s))) = Some (?upd s p)"
      using find_replaceOne[OF Some key] by simp
    moreover obtain an where an: "IPerson.linkedNotes (?upd s p) = IPerson.linkedNotes p @ an"
      "distinct an" "set an \<inter> set (IPerson.linkedNotes p) = {}"
      using pushAbsent_appends[of "map INote.oid
          (filter (\<lambda>n. includes' (toLowerCase (content n)) (toLowerCase personName)) (?ns s))"
          "IPerson.linkedNotes p"]
      by (auto simp: pushMentioningNotes_pushAbsent)
    moreover obtain am where am: "meetings (?upd s p) = meetings p @ am"
      "distinct am" "set am \<inter> set (meetings p) = {}"
      using pushAbsent_appends[of "map IMeeting.oid
          (filter (\<lambda>m. includes' (toLowerCase (IMeeting.title m)) (toLowerCase personName)) (?ms s))"
          "meetings p"]
      by (auto simp: pushMentioningMeetings_pushAbsent)
    ultimately show ?thesis
      by (intro exI[of _ "?upd s p"] exI[of _ an] exI[of _ am]) auto
  qed
  from idem frame[of s] fresh show ?thesis by blast
qed

theorem linkPerson_idempotent_witness:
  "find (\<lambda>q. IPerson.oid q = ''p1'') (personDocs store0) = Some john
   \<and> distinct (IPerson.linkedNotes john) \<and> distinct (meetings john)
   \<and> personDocs (snd (linkPersonToRelevantData env0 ''u1'' ''p1'' ''John'' store0))
      = [john\<lparr>IPerson.linkedNotes := [''n1''], meetings := [''m1'']\<rparr>]
   \<and> personDocs (snd (linkPersonToRelevantData env0 ''u1'' ''p1'' ''John''
        (snd (linkPersonToRelevantData env0 ''u1'' ''p1'' ''John'' store0))))
      = [john\<lparr>IPerson.linkedNotes := [''n1''], meetings := [''m1'']\<rparr>]"
proof -
  have h1: "find (\<lambda>q. IPerson.oid q = ''p1'') (personDocs store0) = Some john"
    by (simp add: fixture_defs)
  have h2: "distinct (IPerson.linkedNotes john) \<and> distinct (meetings john)"
    by (simp add: john_def)
  have run1: "personDocs (snd (linkPersonToRelevantData env0 ''u1'' ''p1'' ''John'' store0))
      = [john\<lparr>IPerson.linkedNotes := [''n1''], meetings := [''m1'']\<rparr>]"
    by (simp add: linkPersonToRelevantData_def linkPersonToRelevantData_try_def io_defs fixture_defs
        toLowerCase_def toLowerChar_def)
  have run2: "personDocs (snd (linkPersonToRelevantData env0 ''u1'' ''p1'' ''John''
        (snd (linkPersonToRelevantData env0 ''u1'' ''p1'' ''John'' store0))))
      = [john\<lparr>IPerson.linkedNotes := [''n1''], meetings := [''m1'']\<rparr>]"
    using linkPerson_idempotent[of env0 "''u1''" "''p1''" "''John''" store0] run1 by simp
  from h1 h2 run1 run2 show ?thesis by simp
qed

end
